theory Spec2Isabelle
  imports Main
begin

section \<open>Python values used by \<^verbatim>\<open>antsibull/tagging.py\<close>\<close>

text \<open>
  A Python \<^verbatim>\<open>str\<close> is a \<^typ>\<open>string\<close>; one character of the model stands for one code
  point below 256. A value of type \<^verbatim>\<open>str | None\<close> is a \<^typ>\<open>string option\<close>.
  The tests \<^verbatim>\<open>if x\<close> and \<^verbatim>\<open>not x\<close> on such a value look at its truth value: \<^verbatim>\<open>None\<close> and
  the empty string are both false.
\<close>

definition truthy :: "string option \<Rightarrow> bool" where
  "truthy x = (case x of None \<Rightarrow> False | Some s \<Rightarrow> s \<noteq> [])"

text \<open>The replacement field \<^verbatim>\<open>{x}\<close> of an f-string, for \<^verbatim>\<open>x: str | None\<close>.\<close>

definition str_opt :: "string option \<Rightarrow> string" where
  "str_opt x = (case x of None \<Rightarrow> ''None'' | Some s \<Rightarrow> s)"

subsection \<open>\<^verbatim>\<open>repr\<close> of a string (the conversion \<^verbatim>\<open>!r\<close>)\<close>

text \<open>
  CPython's \<^verbatim>\<open>repr\<close> of a string: the quote is the apostrophe, unless the string holds an
  apostrophe and no double quote; the quote and the backslash are escaped by a backslash;
  tab, line feed and carriage return are written \<^verbatim>\<open>\t\<close>, \<^verbatim>\<open>\n\<close>, \<^verbatim>\<open>\r\<close>; every other code
  point that is not printable is written \<^verbatim>\<open>\xhh\<close>. Below 256 the printable code points are
  32 to 126 and 161 to 255 without 173.
\<close>

definition backslash :: char where
  "backslash = CHR 0x5C"

definition apostrophe :: char where
  "apostrophe = CHR 0x27"

definition double_quote :: char where
  "double_quote = CHR 0x22"

definition line_feed :: char where
  "line_feed = CHR 0x0A"

definition hex_digit :: "nat \<Rightarrow> char" where
  "hex_digit n = ''0123456789abcdef'' ! (n mod 16)"

definition hex_escape :: "char \<Rightarrow> string" where
  "hex_escape c =
     [backslash, CHR ''x'', hex_digit (of_char c div 16), hex_digit (of_char c)]"

definition printable :: "char \<Rightarrow> bool" where
  "printable c =
     (let n = (of_char c :: nat) in (32 \<le> n \<and> n < 127) \<or> (161 \<le> n \<and> n \<noteq> 173))"

definition repr_quote :: "string \<Rightarrow> char" where
  "repr_quote s =
     (if apostrophe \<in> set s \<and> double_quote \<notin> set s then double_quote else apostrophe)"

definition repr_char :: "char \<Rightarrow> char \<Rightarrow> string" where
  "repr_char q c =
     (if c = q \<or> c = backslash then [backslash, c]
      else if c = CHR 0x09 then [backslash, CHR ''t'']
      else if c = line_feed then [backslash, CHR ''n'']
      else if c = CHR 0x0D then [backslash, CHR ''r'']
      else if printable c then [c]
      else hex_escape c)"

definition py_repr :: "string \<Rightarrow> string" where
  "py_repr s = (let q = repr_quote s in q # concat (map (repr_char q) s) @ [q])"

text \<open>
  A name is plain when \<^verbatim>\<open>repr\<close> only puts it between apostrophes: every character is
  printable and none is an apostrophe or a backslash.
\<close>

definition plain_name :: "string \<Rightarrow> bool" where
  "plain_name s = (\<forall>c \<in> set s. printable c \<and> c \<noteq> apostrophe \<and> c \<noteq> backslash)"

section \<open>The tag data of a collection\<close>

text \<open>
  \<^verbatim>\<open>CollectionTagData\<close> is a \<^verbatim>\<open>TypedDict\<close>; the key \<^verbatim>\<open>collection_directory\<close> is
  \<^verbatim>\<open>NotRequired\<close>, so its absence is \<^const>\<open>None\<close>. The dictionary \<^verbatim>\<open>tag_data\<close> is the list of
  its items in the order of iteration; the keys of a dictionary are distinct.
\<close>

record CollectionTagData =
  version :: string
  repository :: "string option"
  tag :: "string option"
  collection_directory :: "string option"

type_synonym tag_data = "(string \<times> CollectionTagData) list"

section \<open>\<^verbatim>\<open>validate_tags\<close>\<close>

subsection \<open>The four messages\<close>

definition useless_ignore_error :: "string \<Rightarrow> string \<Rightarrow> string" where
  "useless_ignore_error name v =
     ''useless ignore '' @ py_repr name @ '': '' @ name @ '' '' @ v @ '' is properly tagged''"

definition no_repository_error :: "string \<Rightarrow> string" where
  "no_repository_error name =
     name @ [apostrophe] @ ''s repository is not specified at all in collection-meta.yaml''"

definition not_tagged_error :: "string \<Rightarrow> string \<Rightarrow> string option \<Rightarrow> string" where
  "not_tagged_error name v repo = name @ '' '' @ v @ '' is not tagged in '' @ str_opt repo"

definition invalid_ignore_error :: "string \<Rightarrow> string" where
  "invalid_ignore_error name =
     ''invalid ignore '' @ py_repr name @ '': '' @ name @ '' does not match any collection''"

subsection \<open>The loop over the items of \<^verbatim>\<open>tag_data\<close>\<close>

text \<open>
  The local variables \<^verbatim>\<open>errors\<close> and \<^verbatim>\<open>ignore_set\<close> are threaded through the loop. A Python
  set is a list without duplicates here; the order of the list is the order in which the
  set is iterated, which Python leaves open. \<^verbatim>\<open>ignore_set.remove(name)\<close> runs only under
  \<^verbatim>\<open>name in ignore_set\<close>, so it never raises \<^verbatim>\<open>KeyError\<close>.
\<close>

definition validate_entry ::
  "bool \<Rightarrow> string \<times> CollectionTagData \<Rightarrow> string list \<times> string list \<Rightarrow> string list \<times> string list"
where
  "validate_entry error_on_useless_ignores entry st =
     (let (name, data) = entry; (errors, ignore_set) = st
      in if name \<in> set ignore_set then
           (if truthy (repository data) \<and> truthy (tag data) \<and> error_on_useless_ignores
            then errors @ [useless_ignore_error name (version data)]
            else errors,
            removeAll name ignore_set)
         else if \<not> truthy (repository data) then
           (errors @ [no_repository_error name], ignore_set)
         else if \<not> truthy (tag data) then
           (errors @ [not_tagged_error name (version data) (repository data)], ignore_set)
         else (errors, ignore_set))"

fun validate_loop ::
  "bool \<Rightarrow> tag_data \<Rightarrow> string list \<times> string list \<Rightarrow> string list \<times> string list"
where
  "validate_loop e [] st = st"
| "validate_loop e (entry # rest) st = validate_loop e rest (validate_entry e entry st)"

text \<open>After the loop: the names still in \<^verbatim>\<open>ignore_set\<close> match no collection.\<close>

definition invalid_ignores :: "bool \<Rightarrow> string list \<times> string list \<Rightarrow> string list" where
  "invalid_ignores error_on_useless_ignores st =
     (let (errors, ignore_set) = st
      in if ignore_set \<noteq> [] \<and> error_on_useless_ignores
         then errors @ map invalid_ignore_error ignore_set
         else errors)"

text \<open>\<^verbatim>\<open>set(ignores)\<close> copies the names of \<^verbatim>\<open>ignores\<close> into a new set.\<close>

definition validate_tags :: "tag_data \<Rightarrow> string list \<Rightarrow> bool \<Rightarrow> string list" where
  "validate_tags tag_data ignores error_on_useless_ignores =
     invalid_ignores error_on_useless_ignores
       (validate_loop error_on_useless_ignores tag_data ([], remdups ignores))"

subsection \<open>The same function on a store of objects\<close>

text \<open>
  To see what happens to the collection the caller passes, the collections of strings live
  in a store and are named by their address. \<^verbatim>\<open>set(ignores)\<close> allocates a new object, and
  \<^verbatim>\<open>ignore_set.remove\<close> updates that object in place.
\<close>

type_synonym ref = nat
type_synonym store = "string list list"

definition alloc :: "store \<Rightarrow> string list \<Rightarrow> ref \<times> store" where
  "alloc h v = (length h, h @ [v])"

fun validate_loop_store ::
  "bool \<Rightarrow> ref \<Rightarrow> tag_data \<Rightarrow> string list \<times> store \<Rightarrow> string list \<times> store"
where
  "validate_loop_store e r [] st = st"
| "validate_loop_store e r (entry # rest) (errors, h) =
     (let (errors', ignore_set') = validate_entry e entry (errors, h ! r)
      in validate_loop_store e r rest (errors', h[r := ignore_set']))"

definition validate_tags_store ::
  "store \<Rightarrow> tag_data \<Rightarrow> ref \<Rightarrow> bool \<Rightarrow> string list \<times> store"
where
  "validate_tags_store h tag_data ignores error_on_useless_ignores =
     (let (ignore_set, h1) = alloc h (remdups (h ! ignores));
          (errors, h2) = validate_loop_store error_on_useless_ignores ignore_set tag_data ([], h1)
      in (invalid_ignores error_on_useless_ignores (errors, h2 ! ignore_set), h2))"

section \<open>Regular expressions\<close>

text \<open>
  Of a compiled pattern the code uses \<^verbatim>\<open>match\<close> only, and of a match \<^verbatim>\<open>group(1)\<close> only. So a
  pattern is the function from the subject to the outcome of \<^verbatim>\<open>match\<close>: \<^const>\<open>None\<close> when the
  pattern does not match at the start of the subject, and otherwise what \<^verbatim>\<open>group(1)\<close> does
  on the match: it raises \<^verbatim>\<open>IndexError\<close> when the pattern has no group 1, it returns
  \<^verbatim>\<open>None\<close> when group 1 took no part in the match, and the text of the group otherwise.
\<close>

datatype group_result = NoSuchGroup | NotMatched | Group string

type_synonym pattern = "string \<Rightarrow> group_result option"

text \<open>
  The two patterns of the module are built from four pieces, each giving the ways it can
  match at the start of a string, in the order in which backtracking tries them.
  \<^verbatim>\<open>.*\<close> takes characters other than the line feed, the longest run first.
\<close>

fun dot_star :: "string \<Rightarrow> (string \<times> string) list" where
  "dot_star [] = [([], [])]"
| "dot_star (c # cs) =
     (if c = line_feed then [([], c # cs)]
      else map (\<lambda>(g, r). (c # g, r)) (dot_star cs) @ [([], c # cs)])"

text \<open>\<^verbatim>\<open>$\<close> matches at the end of the string and before a line feed that ends the string.\<close>

definition at_end :: "string \<Rightarrow> bool" where
  "at_end r = (r = [] \<or> r = [line_feed])"

text \<open>\<^verbatim>\<open>v?\<close> takes a \<^verbatim>\<open>v\<close> first, and nothing on backtracking.\<close>

definition optional_v :: "string \<Rightarrow> string list" where
  "optional_v s = (case s of [] \<Rightarrow> [s] | c # cs \<Rightarrow> if c = CHR ''v'' then [cs, s] else [s])"

definition literal :: "string \<Rightarrow> string \<Rightarrow> string list" where
  "literal l s = (if take (length l) s = l then [drop (length l) s] else [])"

definition first_match :: "string list \<Rightarrow> group_result option" where
  "first_match gs = (case gs of [] \<Rightarrow> None | g # _ \<Rightarrow> Some (Group g))"

text \<open>\<^verbatim>\<open>TAG_MATCHER = re.compile(r"^.*refs/tags/(.*)$")\<close>\<close>

definition TAG_MATCHER :: pattern where
  "TAG_MATCHER s =
     first_match
       [g. (skipped, r1) \<leftarrow> dot_star s, r2 \<leftarrow> literal ''refs/tags/'' r1,
           (g, r3) \<leftarrow> dot_star r2, at_end r3]"

text \<open>\<^verbatim>\<open>TAG_VERSION_REGEX = re.compile(r"^v?(.*)$")\<close>\<close>

definition TAG_VERSION_REGEX :: pattern where
  "TAG_VERSION_REGEX s =
     first_match [g. r1 \<leftarrow> optional_v s, (g, r2) \<leftarrow> dot_star r1, at_end r2]"

section \<open>\<^verbatim>\<open>_normalize_tag\<close>\<close>

datatype py_error = IndexError | UnicodeDecodeError | OSError

text \<open>
  A compiled pattern is always true, so \<^verbatim>\<open>regex or TAG_VERSION_REGEX\<close> is the default
  pattern exactly when \<^verbatim>\<open>regex\<close> is \<^verbatim>\<open>None\<close>. The result has type \<^verbatim>\<open>str | None\<close>.
\<close>

definition normalize_tag :: "string \<Rightarrow> pattern option \<Rightarrow> py_error + string option" where
  "normalize_tag t regex =
     (let regex' = (case regex of None \<Rightarrow> TAG_VERSION_REGEX | Some p \<Rightarrow> p)
      in case regex' t of
           None \<Rightarrow> Inr (Some t)
         | Some NoSuchGroup \<Rightarrow> Inl IndexError
         | Some NotMatched \<Rightarrow> Inr None
         | Some (Group g) \<Rightarrow> Inr (Some g))"

text \<open>What the specification says of the default pattern: one leading \<^verbatim>\<open>v\<close> is removed.\<close>

definition leading_v :: "string \<Rightarrow> bool" where
  "leading_v s = (case s of [] \<Rightarrow> False | c # cs \<Rightarrow> c = CHR ''v'')"

definition strip_leading_v :: "string \<Rightarrow> string" where
  "strip_leading_v s = (if leading_v s then tl s else s)"

section \<open>\<^verbatim>\<open>_get_tags\<close>\<close>

text \<open>
  \<^verbatim>\<open>str.splitlines\<close>: a line ends at a line boundary (below 256: the code points 10 to
  13, 28 to 30 and 133), a carriage return and the line feed after it are one boundary, and
  there is no empty line after the last boundary.
\<close>

definition line_boundary :: "char \<Rightarrow> bool" where
  "line_boundary c =
     (let n = (of_char c :: nat) in (10 \<le> n \<and> n \<le> 13) \<or> (28 \<le> n \<and> n \<le> 30) \<or> n = 133)"

fun splitlines_from :: "string \<Rightarrow> string \<Rightarrow> string list" where
  "splitlines_from cur [] = (if cur = [] then [] else [rev cur])"
| "splitlines_from cur [c] =
     (if line_boundary c then [rev cur] else [rev (c # cur)])"
| "splitlines_from cur (c # d # cs) =
     (if line_boundary c then
        rev cur # (if c = CHR 0x0D \<and> d = line_feed then splitlines_from [] cs
                   else splitlines_from [] (d # cs))
      else splitlines_from (c # cur) (d # cs))"

definition splitlines :: "string \<Rightarrow> string list" where
  "splitlines s = splitlines_from [] s"

text \<open>
  The outside world: starting the process (\<^const>\<open>None\<close> when it cannot be started, which
  raises an \<^verbatim>\<open>OSError\<close>) and \<^verbatim>\<open>re.compile\<close> (\<^const>\<open>Inl\<close> with the text of the \<^verbatim>\<open>re.error\<close> when
  the pattern is not valid). Of the finished process the code reads the return code and the
  standard output, which is \<^const>\<open>None\<close> when its bytes are not UTF-8 and \<^verbatim>\<open>decode\<close> raises.
\<close>

record proc_result =
  returncode :: int
  stdout :: "string option"

record environment =
  create_subprocess_exec :: "string list \<Rightarrow> proc_result option"
  re_compile :: "string \<Rightarrow> string + pattern"

text \<open>
  What a call leaves behind: its result or the exception it raises, the log entries at the
  levels warning and error for which the logger builds a message (entries at the level
  debug are left out), and the argument vectors of the processes it started.
\<close>

datatype level = Warning | Error

datatype log_entry = Log level string "(string \<times> string) list"

record 'a outcome =
  result :: "py_error + 'a"
  logged :: "log_entry list"
  spawned :: "string list list"

text \<open>
  The methods \<^verbatim>\<open>error\<close> and \<^verbatim>\<open>warning\<close> of the logger take a format specification and the
  arguments for it, and build the text of the message with \<^verbatim>\<open>format_spec.format(*args, **kwargs)\<close>. The
  module passes a string that an f-string has already formatted, and no arguments. With
  no arguments \<^verbatim>\<open>str.format\<close> turns two opening braces into one and two closing braces
  into one, and raises on every other brace: a closing brace alone is a \<^verbatim>\<open>ValueError\<close>, an
  opening brace starts a replacement field, for which there is no argument
  (\<^verbatim>\<open>IndexError\<close>, \<^verbatim>\<open>KeyError\<close>) or which does not end (\<^verbatim>\<open>ValueError\<close>). \<^const>\<open>None\<close> stands for
  the exception.
\<close>

fun format_no_args :: "string \<Rightarrow> string option" where
  "format_no_args [] = Some []"
| "format_no_args [c] = (if c = CHR ''{'' \<or> c = CHR ''}'' then None else Some [c])"
| "format_no_args (c # d # cs) =
     (if c = CHR ''{'' \<or> c = CHR ''}'' then
        (if d = c then map_option ((#) c) (format_no_args cs) else None)
      else map_option ((#) c) (format_no_args (d # cs)))"

text \<open>
  The logger catches an exception of the formatting and emits nothing for that call;
  otherwise the entry holds the formatted text and the fields.
\<close>

definition emit :: "level \<Rightarrow> string \<Rightarrow> (string \<times> string) list \<Rightarrow> log_entry list" where
  "emit lvl format_spec flds =
     (case format_no_args format_spec of
        None \<Rightarrow> []
      | Some text \<Rightarrow> [Log lvl text flds])"

definition git_args :: "string \<Rightarrow> string list" where
  "git_args repo = [''git'', ''ls-remote'', ''--refs'', ''--tags'', repo]"

definition mlog_fields :: "string \<Rightarrow> (string \<times> string) list" where
  "mlog_fields func = [(''mod'', ''antsibull.tagging''), (''func'', func)]"

fun matching_tags :: "string list \<Rightarrow> string list" where
  "matching_tags [] = []"
| "matching_tags (line # rest) =
     (case TAG_MATCHER line of
        Some (Group g) \<Rightarrow> g # matching_tags rest
      | _ \<Rightarrow> matching_tags rest)"

text \<open>
  The generator does all its work before the first tag; the tags it yields afterwards are
  computed without effects, so the sequence is the list of its tags.
\<close>

definition get_tags :: "environment \<Rightarrow> string \<Rightarrow> string list outcome" where
  "get_tags env repo =
     (case create_subprocess_exec env (git_args repo) of
        None \<Rightarrow> \<lparr>result = Inl OSError, logged = [], spawned = [git_args repo]\<rparr>
      | Some proc \<Rightarrow>
          if returncode proc \<noteq> 0 then
            \<lparr>result = Inr [],
             logged = emit Error (''Failed to fetch tags for '' @ repo) (mlog_fields ''_get_tags''),
             spawned = [git_args repo]\<rparr>
          else
            (case stdout proc of
               None \<Rightarrow> \<lparr>result = Inl UnicodeDecodeError, logged = [], spawned = [git_args repo]\<rparr>
             | Some text \<Rightarrow>
                 if splitlines text = [] then
                   \<lparr>result = Inr [],
                    logged = emit Warning (repo @ '' does not have any tags'')
                               (mlog_fields ''_get_tags''),
                    spawned = [git_args repo]\<rparr>
                 else
                   \<lparr>result = Inr (matching_tags (splitlines text)), logged = [],
                    spawned = [git_args repo]\<rparr>))"

section \<open>\<^verbatim>\<open>_get_collection_tags\<close>\<close>

text \<open>The three attributes of \<^verbatim>\<open>CollectionMetadata\<close> that the function reads.\<close>

record CollectionMetadata =
  meta_repository :: "string option"
  meta_tag_version_regex :: "string option"
  meta_collection_directory :: "string option"

text \<open>
  Lines 192 to 200: the pattern of the collection is compiled when it is given and not
  empty; \<^const>\<open>Inl\<close> carries the \<^verbatim>\<open>re.error\<close>.
\<close>

definition compile_tag_version_regex ::
  "environment \<Rightarrow> string option \<Rightarrow> string + pattern option"
where
  "compile_tag_version_regex env r =
     (case r of
        None \<Rightarrow> Inr None
      | Some p \<Rightarrow>
          if p = [] then Inr None
          else (case re_compile env p of Inl err \<Rightarrow> Inl err | Inr c \<Rightarrow> Inr (Some c)))"

text \<open>
  The loop over the tags: \<^verbatim>\<open>data["tag"]\<close> is set at the first tag whose normal form is the
  version, and \<^verbatim>\<open>break\<close> leaves the loop; an exception of \<^verbatim>\<open>_normalize_tag\<close> leaves the
  function.
\<close>

fun find_tag :: "string \<Rightarrow> pattern option \<Rightarrow> string list \<Rightarrow> py_error + string option" where
  "find_tag v regex [] = Inr None"
| "find_tag v regex (t # rest) =
     (case normalize_tag t regex of
        Inl e \<Rightarrow> Inl e
      | Inr n \<Rightarrow> if n = Some v then Inr (Some t) else find_tag v regex rest)"

text \<open>
  In the handler of \<^verbatim>\<open>re.error\<close> the variable \<^verbatim>\<open>tag_version_regex\<close> still holds \<^verbatim>\<open>None\<close>, as
  the assignment did not happen; the f-string of the message formats that variable.
\<close>

definition initial_data :: "string \<Rightarrow> CollectionMetadata \<Rightarrow> CollectionTagData" where
  "initial_data v meta_data =
     \<lparr>version = v, repository = meta_repository meta_data, tag = None,
      collection_directory =
        (if truthy (meta_collection_directory meta_data)
         then meta_collection_directory meta_data else None)\<rparr>"

definition get_collection_tags ::
  "environment \<Rightarrow> string \<Rightarrow> CollectionMetadata \<Rightarrow> string \<Rightarrow> CollectionTagData outcome"
where
  "get_collection_tags env v meta_data name =
     (let data = initial_data v meta_data
      in if \<not> truthy (meta_repository meta_data) then
           \<lparr>result = Inr data, logged = [], spawned = []\<rparr>
         else
           (case compile_tag_version_regex env (meta_tag_version_regex meta_data) of
              Inl err \<Rightarrow>
                \<lparr>result = Inr data,
                 logged = emit Error (str_opt None @ '' is an invalid regex'')
                            (mlog_fields ''_get_collection_tags'' @
                             [(''err'', err), (''collection'', name)]),
                 spawned = []\<rparr>
            | Inr tag_version_regex \<Rightarrow>
                (let fetched = get_tags env (str_opt (meta_repository meta_data))
                 in \<lparr>result =
                       (case result fetched of
                          Inl e \<Rightarrow> Inl e
                        | Inr tags \<Rightarrow>
                            (case find_tag v tag_version_regex tags of
                               Inl e \<Rightarrow> Inl e
                             | Inr t \<Rightarrow> Inr (data\<lparr>tag := t\<rparr>))),
                     logged = logged fetched,
                     spawned = spawned fetched\<rparr>)))"

section \<open>Example inputs\<close>

text \<open>The records of the scenarios of the specification, and variations of them.\<close>

definition foo_tagged :: CollectionTagData where
  "foo_tagged = \<lparr>version = ''1.2.0'', repository = Some ''https://example/foo.git'',
     tag = Some ''v1.2.0'', collection_directory = None\<rparr>"

definition foo_untagged :: CollectionTagData where
  "foo_untagged = \<lparr>version = ''1.2.0'', repository = Some ''https://example/foo.git'',
     tag = None, collection_directory = None\<rparr>"

definition foo_empty_repository :: CollectionTagData where
  "foo_empty_repository = \<lparr>version = ''1.2.0'', repository = Some [],
     tag = Some ''v1.2.0'', collection_directory = None\<rparr>"

definition bar_no_repository :: CollectionTagData where
  "bar_no_repository = \<lparr>version = ''2.0.0'', repository = None,
     tag = None, collection_directory = None\<rparr>"

definition quoted_tagged :: CollectionTagData where
  "quoted_tagged = \<lparr>version = ''1.0.0'', repository = Some ''https://example/its.git'',
     tag = Some ''1.0.0'', collection_directory = None\<rparr>"

text \<open>
  Two environments: git prints two tags, or git fails; and metadata of collections.
\<close>

definition two_tags_output :: string where
  "two_tags_output =
     ''0a1b'' @ [CHR 0x09] @ ''refs/tags/v1.0.0'' @ [line_feed] @
     ''2c3d'' @ [CHR 0x09] @ ''refs/tags/v1.2.0'' @ [line_feed]"

definition run_two_tags :: "string list \<Rightarrow> proc_result option" where
  "run_two_tags args = Some \<lparr>returncode = 0, stdout = Some two_tags_output\<rparr>"

definition run_failed :: "string list \<Rightarrow> proc_result option" where
  "run_failed args = Some \<lparr>returncode = 128, stdout = Some []\<rparr>"

definition compile_invalid :: "string \<Rightarrow> string + pattern" where
  "compile_invalid p = Inl ''missing ), unterminated subpattern at position 0''"

text \<open>The pattern \<^verbatim>\<open>v\<close>: it matches a tag that starts with \<^verbatim>\<open>v\<close>, and it has no group.\<close>

definition pattern_v :: pattern where
  "pattern_v s = (if leading_v s then Some NoSuchGroup else None)"

definition compile_v :: "string \<Rightarrow> string + pattern" where
  "compile_v p = Inr pattern_v"

definition env_two_tags :: environment where
  "env_two_tags = \<lparr>create_subprocess_exec = run_two_tags, re_compile = compile_invalid\<rparr>"

definition env_failed :: environment where
  "env_failed = \<lparr>create_subprocess_exec = run_failed, re_compile = compile_invalid\<rparr>"

definition env_v :: environment where
  "env_v = \<lparr>create_subprocess_exec = run_two_tags, re_compile = compile_v\<rparr>"

definition foo_meta :: CollectionMetadata where
  "foo_meta = \<lparr>meta_repository = Some ''https://example/foo.git'',
     meta_tag_version_regex = None, meta_collection_directory = None\<rparr>"

definition foo_meta_v :: CollectionMetadata where
  "foo_meta_v = \<lparr>meta_repository = Some ''https://example/foo.git'',
     meta_tag_version_regex = Some ''v'', meta_collection_directory = None\<rparr>"

definition foo_meta_invalid :: CollectionMetadata where
  "foo_meta_invalid = \<lparr>meta_repository = Some ''https://example/foo.git'',
     meta_tag_version_regex = Some ''('', meta_collection_directory = None\<rparr>"

definition bar_meta :: CollectionMetadata where
  "bar_meta = \<lparr>meta_repository = None, meta_tag_version_regex = None,
     meta_collection_directory = None\<rparr>"

text \<open>A repository whose path holds braces.\<close>

definition braces_repository :: string where
  "braces_repository = ''/tmp/vrepo/{missing}.git''"

definition braces_meta :: CollectionMetadata where
  "braces_meta = \<lparr>meta_repository = Some braces_repository,
     meta_tag_version_regex = None, meta_collection_directory = None\<rparr>"

section \<open>Properties of \<^verbatim>\<open>validate_tags\<close>\<close>

lemma validate_entry_snd: "snd (validate_entry e (name, d) (errs, ig)) = removeAll name ig"
  by (simp add: validate_entry_def)

lemma validate_entry_fst:
  "fst (validate_entry e (name, d) (errs, ig)) = errs @ fst (validate_entry e (name, d) ([], ig))"
  by (simp add: validate_entry_def)

lemma validate_loop_append:
  "validate_loop e (xs @ ys) st = validate_loop e ys (validate_loop e xs st)"
  by (induction xs arbitrary: st) simp_all

lemma validate_loop_snd:
  "snd (validate_loop e td (errs, ig)) = filter (\<lambda>n. n \<notin> fst ` set td) ig"
proof (induction td arbitrary: errs ig)
  case Nil
  then show ?case by simp
next
  case (Cons entry td)
  obtain name d where entry: "entry = (name, d)" by (cases entry)
  obtain errs' where step: "validate_entry e (name, d) (errs, ig) = (errs', removeAll name ig)"
    using validate_entry_snd [of e name d errs ig] by (cases "validate_entry e (name, d) (errs, ig)") simp
  have "filter (\<lambda>n. n \<notin> fst ` set td) (removeAll name ig) =
        filter (\<lambda>n. n \<notin> fst ` set ((name, d) # td)) ig"
    by (induction ig) auto
  with Cons.IH [of errs' "removeAll name ig"] entry step show ?case by simp
qed

lemma validate_loop_fst:
  "fst (validate_loop e td (errs, ig)) = errs @ fst (validate_loop e td ([], ig))"
proof (induction td arbitrary: errs ig)
  case Nil
  then show ?case by simp
next
  case (Cons entry td)
  obtain name d where entry: "entry = (name, d)" by (cases entry)
  obtain a b where step: "validate_entry e (name, d) ([], ig) = (a, b)"
    by (cases "validate_entry e (name, d) ([], ig)")
  have step': "validate_entry e (name, d) (errs, ig) = (errs @ a, b)"
    using step validate_entry_fst [of e name d errs ig] validate_entry_snd [of e name d errs ig]
      validate_entry_snd [of e name d "[]" ig]
    by (cases "validate_entry e (name, d) (errs, ig)") simp
  show ?case
    using Cons.IH [of "errs @ a" b] Cons.IH [of a b] entry step step' by simp
qed

lemma invalid_ignores_append:
  "invalid_ignores e (errs @ errs2, ig) = errs @ invalid_ignores e (errs2, ig)"
  by (simp add: invalid_ignores_def)

lemma validate_tags_split:
  "validate_tags (pre @ entry # post) ignores e =
     fst (validate_loop e pre ([], remdups ignores)) @
     fst (validate_entry e entry ([], snd (validate_loop e pre ([], remdups ignores)))) @
     validate_tags post (snd (validate_entry e entry ([], snd (validate_loop e pre ([], remdups ignores))))) e"
proof -
  obtain name d where entry: "entry = (name, d)" by (cases entry)
  define ig where "ig = snd (validate_loop e pre ([], remdups ignores))"
  define b where "b = fst (validate_loop e pre ([], remdups ignores))"
  define m where "m = fst (validate_entry e entry ([], ig))"
  define ig' where "ig' = snd (validate_entry e entry ([], ig))"
  have pre: "validate_loop e pre ([], remdups ignores) = (b, ig)"
    by (simp add: b_def ig_def)
  have "validate_entry e entry (b, ig) = (b @ m, ig')"
    using validate_entry_fst [of e name d b ig] validate_entry_snd [of e name d b ig]
      validate_entry_snd [of e name d "[]" ig]
    by (cases "validate_entry e entry (b, ig)") (simp add: entry m_def ig'_def)
  then have full: "validate_loop e (pre @ entry # post) ([], remdups ignores) =
      validate_loop e post (b @ m, ig')"
    by (simp add: validate_loop_append pre)
  have dist: "distinct ig'"
    by (simp add: ig'_def entry validate_entry_snd ig_def validate_loop_snd distinct_removeAll)
  obtain c ig'' where post: "validate_loop e post ([], ig') = (c, ig'')"
    by (cases "validate_loop e post ([], ig')")
  have post': "validate_loop e post (b @ m, ig') = ((b @ m) @ c, ig'')"
    using validate_loop_fst [of e post "b @ m" ig'] validate_loop_snd [of e post "b @ m" ig']
      validate_loop_snd [of e post "[]" ig'] post
    by (cases "validate_loop e post (b @ m, ig')") simp
  have "validate_tags (pre @ entry # post) ignores e = invalid_ignores e ((b @ m) @ c, ig'')"
    by (simp add: validate_tags_def full post')
  also have "\<dots> = (b @ m) @ invalid_ignores e (c, ig'')"
    by (rule invalid_ignores_append)
  also have "invalid_ignores e (c, ig'') = validate_tags post ig' e"
    using dist by (simp add: validate_tags_def post distinct_remdups_id)
  finally show ?thesis
    by (simp add: b_def m_def ig'_def ig_def)
qed

lemma printable_not_special:
  "printable c \<Longrightarrow> c \<noteq> CHR 0x09 \<and> c \<noteq> line_feed \<and> c \<noteq> CHR 0x0D"
  by (auto simp: printable_def line_feed_def)

lemma repr_char_plain:
  "printable c \<Longrightarrow> c \<noteq> apostrophe \<Longrightarrow> c \<noteq> backslash \<Longrightarrow> repr_char apostrophe c = [c]"
  using printable_not_special [of c] by (simp add: repr_char_def)

lemma concat_repr_char_plain:
  "plain_name s \<Longrightarrow> concat (map (repr_char apostrophe) s) = s"
  by (induction s) (simp_all add: plain_name_def repr_char_plain)

lemma py_repr_plain: "plain_name s \<Longrightarrow> py_repr s = [apostrophe] @ s @ [apostrophe]"
proof -
  assume p: "plain_name s"
  then have "apostrophe \<notin> set s" by (auto simp: plain_name_def)
  then have "repr_quote s = apostrophe" by (simp add: repr_quote_def)
  with p show ?thesis by (simp add: py_repr_def concat_repr_char_plain)
qed

lemma validate_loop_set:
  "set (snd (validate_loop e td ([], remdups ignores))) = set ignores - fst ` set td"
  by (auto simp: validate_loop_snd)

text \<open>
  Claim C3, with absence read as Python reads it. For a collection whose name is not among
  the ignored names, the errors are those of the collections before it, then the message
  \<^verbatim>\<open><name>'s repository is not specified at all in collection-meta.yaml\<close> when its
  repository is \<^verbatim>\<open>None\<close> or the empty string, otherwise the message
  \<^verbatim>\<open><name> <version> is not tagged in <repository>\<close> when its tag is \<^verbatim>\<open>None\<close> or the empty
  string, otherwise no message, and then the errors of the remaining collections and
  ignored names.
\<close>

theorem validate_tags_not_ignored:
  assumes "name \<notin> set ignores"
  shows "validate_tags (pre @ (name, d) # post) ignores e =
           fst (validate_loop e pre ([], remdups ignores)) @
           (if \<not> truthy (repository d)
            then [name @ '''s repository is not specified at all in collection-meta.yaml'']
            else if \<not> truthy (tag d)
            then [name @ '' '' @ version d @ '' is not tagged in '' @ str_opt (repository d)]
            else []) @
           validate_tags post (snd (validate_loop e pre ([], remdups ignores))) e"
proof -
  have "name \<notin> set (snd (validate_loop e pre ([], remdups ignores)))"
    using assms by (simp add: validate_loop_set)
  then show ?thesis
    unfolding validate_tags_split [of pre "(name, d)" post ignores e]
    by (simp add: validate_entry_def no_repository_error_def not_tagged_error_def
        apostrophe_def)
qed

theorem validate_tags_not_ignored_witness:
  "''foo'' \<notin> set [] \<and>
   validate_tags ([] @ (''foo'', foo_untagged) # []) [] True =
     [''foo 1.2.0 is not tagged in https://example/foo.git''] \<and>
   validate_tags ([] @ (''bar'', bar_no_repository) # []) [] True =
     [''bar's repository is not specified at all in collection-meta.yaml''] \<and>
   validate_tags ([] @ (''foo'', foo_tagged) # []) [] True = []"
  using validate_tags_not_ignored [of "''foo''" "[]" "[]" foo_untagged "[]" True]
    validate_tags_not_ignored [of "''bar''" "[]" "[]" bar_no_repository "[]" True]
    validate_tags_not_ignored [of "''foo''" "[]" "[]" foo_tagged "[]" True]
  by (simp add: foo_untagged_def bar_no_repository_def foo_tagged_def truthy_def str_opt_def
      validate_tags_def invalid_ignores_def)

text \<open>
  A repository that is present but empty is reported as not specified, although neither
  the repository nor the tag of the record is \<^verbatim>\<open>None\<close>.
\<close>

theorem validate_tags_empty_repository_counterexample:
  "validate_tags [(''foo'', foo_empty_repository)] [] True =
     [''foo's repository is not specified at all in collection-meta.yaml''] \<and>
   repository foo_empty_repository \<noteq> None \<and> tag foo_empty_repository \<noteq> None"
  by (simp add: validate_tags_def invalid_ignores_def validate_entry_def
      foo_empty_repository_def truthy_def no_repository_error_def apostrophe_def)

text \<open>
  Claim C4, with presence read as Python reads it and the name written by \<^verbatim>\<open>repr\<close>. For an
  ignored name whose record has a repository and a tag, both not empty, the errors are
  those of the collections before it, then the single message
  \<^verbatim>\<open>useless ignore <repr of name>: <name> <version> is properly tagged\<close> when
  \<^verbatim>\<open>error_on_useless_ignores\<close> is true and no message when it is false, and then the errors
  of the remaining collections, validated with the name removed from the working set. The
  \<^verbatim>\<open>repr\<close> of a plain name is the name between apostrophes.
\<close>

theorem validate_tags_useless_ignore:
  assumes "name \<in> set ignores" and "name \<notin> fst ` set pre"
    and "truthy (repository d)" and "truthy (tag d)"
  shows "validate_tags (pre @ (name, d) # post) ignores e =
           fst (validate_loop e pre ([], remdups ignores)) @
           (if e then [''useless ignore '' @ py_repr name @ '': '' @ name @ '' '' @
                       version d @ '' is properly tagged'']
            else []) @
           validate_tags post
             (removeAll name (snd (validate_loop e pre ([], remdups ignores)))) e \<and>
         (plain_name name \<longrightarrow> py_repr name = [apostrophe] @ name @ [apostrophe])"
proof -
  have "name \<in> set (snd (validate_loop e pre ([], remdups ignores)))"
    using assms(1,2) by (simp add: validate_loop_set)
  then have "validate_tags (pre @ (name, d) # post) ignores e =
           fst (validate_loop e pre ([], remdups ignores)) @
           (if e then [''useless ignore '' @ py_repr name @ '': '' @ name @ '' '' @
                       version d @ '' is properly tagged'']
            else []) @
           validate_tags post
             (removeAll name (snd (validate_loop e pre ([], remdups ignores)))) e"
    unfolding validate_tags_split [of pre "(name, d)" post ignores e]
    using assms(3,4) by (simp add: validate_entry_def useless_ignore_error_def)
  then show ?thesis by (simp add: py_repr_plain)
qed

lemma plain_foo: "plain_name ''foo''"
  by (simp add: plain_name_def printable_def apostrophe_def backslash_def)

theorem validate_tags_useless_ignore_witness:
  "''foo'' \<in> set [''foo''] \<and> ''foo'' \<notin> fst ` set [] \<and>
   truthy (repository foo_tagged) \<and> truthy (tag foo_tagged) \<and> plain_name ''foo'' \<and>
   validate_tags ([] @ (''foo'', foo_tagged) # []) [''foo''] True =
     [''useless ignore 'foo': foo 1.2.0 is properly tagged''] \<and>
   validate_tags ([] @ (''foo'', foo_tagged) # []) [''foo''] False = []"
  using validate_tags_useless_ignore [of "''foo''" "[''foo'']" "[]" foo_tagged "[]" True]
    validate_tags_useless_ignore [of "''foo''" "[''foo'']" "[]" foo_tagged "[]" False]
    plain_foo
  by (simp add: foo_tagged_def truthy_def validate_tags_def invalid_ignores_def apostrophe_def)

text \<open>
  An ignored collection whose repository is the empty string gets no message at all, and
  a name with an apostrophe is written between double quotes.
\<close>

theorem validate_tags_useless_ignore_counterexample:
  "validate_tags [(''foo'', foo_empty_repository)] [''foo''] True = [] \<and>
   repository foo_empty_repository \<noteq> None \<and> tag foo_empty_repository \<noteq> None \<and>
   validate_tags [(''it's'', quoted_tagged)] [''it's''] True =
     [''useless ignore '' @ [double_quote] @ ''it's'' @ [double_quote] @
      '': it's 1.0.0 is properly tagged'']"
  by (simp add: validate_tags_def invalid_ignores_def validate_entry_def
      foo_empty_repository_def quoted_tagged_def truthy_def useless_ignore_error_def
      py_repr_def repr_quote_def repr_char_def printable_def Let_def
      apostrophe_def double_quote_def backslash_def line_feed_def)

lemma count_list_distinct: "distinct xs \<Longrightarrow> x \<in> set xs \<Longrightarrow> count_list xs x = 1"
  by (induction xs) auto

text \<open>
  Claim C5, with the name written by \<^verbatim>\<open>repr\<close>. The errors are those of the loop over the
  collections, followed, when \<^verbatim>\<open>error_on_useless_ignores\<close> is true, by one message
  \<^verbatim>\<open>invalid ignore <repr of name>: <name> does not match any collection\<close> for each ignored
  name that is not a key of the results, and by nothing when it is false. Each such name
  is there exactly once.
\<close>

theorem validate_tags_invalid_ignores:
  "validate_tags td ignores e =
     fst (validate_loop e td ([], remdups ignores)) @
     (if e
      then map (\<lambda>name. ''invalid ignore '' @ py_repr name @ '': '' @ name @
                  '' does not match any collection'')
             (filter (\<lambda>n. n \<notin> fst ` set td) (remdups ignores))
      else []) \<and>
   (name \<in> set ignores \<and> name \<notin> fst ` set td \<longrightarrow>
      count_list (filter (\<lambda>n. n \<notin> fst ` set td) (remdups ignores)) name = 1) \<and>
   (plain_name name \<longrightarrow> py_repr name = [apostrophe] @ name @ [apostrophe])"
proof -
  obtain errs where loop: "validate_loop e td ([], remdups ignores) =
      (errs, filter (\<lambda>n. n \<notin> fst ` set td) (remdups ignores))"
    using validate_loop_snd [of e td "[]" "remdups ignores"]
    by (cases "validate_loop e td ([], remdups ignores)") simp
  have msg: "invalid_ignore_error = (\<lambda>name. ''invalid ignore '' @ py_repr name @ '': '' @ name @
                  '' does not match any collection'')"
    by (rule ext) (simp add: invalid_ignore_error_def)
  have first: "validate_tags td ignores e =
     fst (validate_loop e td ([], remdups ignores)) @
     (if e
      then map (\<lambda>name. ''invalid ignore '' @ py_repr name @ '': '' @ name @
                  '' does not match any collection'')
             (filter (\<lambda>n. n \<notin> fst ` set td) (remdups ignores))
      else [])"
    unfolding validate_tags_def loop invalid_ignores_def msg by simp
  have "distinct (filter (\<lambda>n. n \<notin> fst ` set td) (remdups ignores))"
    by simp
  then have second: "name \<in> set ignores \<and> name \<notin> fst ` set td \<longrightarrow>
      count_list (filter (\<lambda>n. n \<notin> fst ` set td) (remdups ignores)) name = 1"
    by (simp add: count_list_distinct)
  from first second show ?thesis by (simp add: py_repr_plain)
qed

lemma plain_baz: "plain_name ''baz''"
  by (simp add: plain_name_def printable_def apostrophe_def backslash_def)

theorem validate_tags_invalid_ignores_witness:
  "''baz'' \<in> set [''foo'', ''baz''] \<and> ''baz'' \<notin> fst ` set [(''foo'', foo_tagged)] \<and>
   plain_name ''baz'' \<and>
   validate_tags [(''foo'', foo_tagged)] [''foo'', ''baz''] True =
     [''useless ignore 'foo': foo 1.2.0 is properly tagged'',
      ''invalid ignore 'baz': baz does not match any collection''] \<and>
   validate_tags [(''foo'', foo_tagged)] [''foo'', ''baz''] False = []"
  using validate_tags_invalid_ignores [of "[(''foo'', foo_tagged)]" "[''foo'', ''baz'']" True "''baz''"]
    validate_tags_invalid_ignores [of "[(''foo'', foo_tagged)]" "[''foo'', ''baz'']" False "''baz''"]
    plain_baz plain_foo py_repr_plain [of "''foo''"]
  by (simp add: foo_tagged_def truthy_def validate_entry_def useless_ignore_error_def
       apostrophe_def)

text \<open>An ignored name with an apostrophe is written between double quotes.\<close>

theorem validate_tags_invalid_ignores_counterexample:
  "validate_tags [] [''it's''] True =
     [''invalid ignore '' @ [double_quote] @ ''it's'' @ [double_quote] @
      '': it's does not match any collection''] \<and>
   validate_tags [] [''it's''] True \<noteq>
     [''invalid ignore 'it's': it's does not match any collection'']"
  by (simp add: validate_tags_def invalid_ignores_def invalid_ignore_error_def
      py_repr_def repr_quote_def repr_char_def printable_def Let_def
      apostrophe_def double_quote_def backslash_def line_feed_def)

subsection \<open>The caller's collection of ignored names\<close>

lemma validate_loop_store_eq:
  "r < length h \<Longrightarrow>
   validate_loop_store e r td (errs, h) =
     (fst (validate_loop e td (errs, h ! r)), h[r := snd (validate_loop e td (errs, h ! r))])"
proof (induction td arbitrary: errs h)
  case Nil
  then show ?case by simp
next
  case (Cons entry td)
  obtain a b where step: "validate_entry e entry (errs, h ! r) = (a, b)"
    by (cases "validate_entry e entry (errs, h ! r)")
  from Cons.prems have len: "r < length (h[r := b])" by simp
  show ?case
    using Cons.IH [OF len, of a] Cons.prems by (simp add: step)
qed

text \<open>
  Claim C10, for the working copy. When validation returns, every object of the store is
  as it was before, the collection passed by the caller among them; the store has one more
  object, the set made by \<^verbatim>\<open>set(ignores)\<close>, and from that set every name that is a key of
  the results has been removed. The errors are those of \<^const>\<open>validate_tags\<close>.
\<close>

theorem validate_tags_store_frame:
  assumes "ignores < length h"
  shows "fst (validate_tags_store h td ignores e) = validate_tags td (h ! ignores) e \<and>
         snd (validate_tags_store h td ignores e) =
           h @ [filter (\<lambda>n. n \<notin> fst ` set td) (remdups (h ! ignores))] \<and>
         snd (validate_tags_store h td ignores e) ! ignores = h ! ignores"
proof -
  define w where "w = remdups (h ! ignores)"
  have loop: "validate_loop_store e (length h) td ([], h @ [w]) =
      (fst (validate_loop e td ([], w)), h @ [snd (validate_loop e td ([], w))])"
    using validate_loop_store_eq [of "length h" "h @ [w]" e td "[]"] by simp
  have pair: "(fst (validate_loop e td ([], w)), snd (validate_loop e td ([], w))) =
      validate_loop e td ([], w)"
    by simp
  have "validate_tags_store h td ignores e =
      (invalid_ignores e (validate_loop e td ([], w)),
       h @ [snd (validate_loop e td ([], w))])"
    unfolding validate_tags_store_def alloc_def w_def [symmetric]
    by (simp add: loop del: prod.collapse) (simp only: pair)
  then show ?thesis
    using assms by (simp add: validate_tags_def w_def validate_loop_snd nth_append)
qed

theorem validate_tags_store_frame_witness:
  "(0::nat) < length [[''foo'', ''baz'']] \<and>
   snd (validate_tags_store [[''foo'', ''baz'']] [(''foo'', foo_tagged)] 0 True) =
     [[''foo'', ''baz''], [''baz'']]"
  using validate_tags_store_frame [of 0 "[[''foo'', ''baz'']]" "[(''foo'', foo_tagged)]" True]
  by simp

text \<open>The caller's set still holds a name that matches a collection.\<close>

theorem validate_tags_store_counterexample:
  "''foo'' \<in> set (snd (validate_tags_store [[''foo'']] [(''foo'', foo_tagged)] 0 True) ! 0)"
  by (simp add: validate_tags_store_def alloc_def validate_entry_def foo_tagged_def truthy_def)

section \<open>Properties of \<^verbatim>\<open>_normalize_tag\<close>\<close>

lemma at_end_cons_groups:
  "concat (map (\<lambda>(g, r). if at_end r then [g] else []) (map (\<lambda>(g, r). (c # g, r)) xs)) =
     map ((#) c) (concat (map (\<lambda>(g, r). if at_end r then [g] else []) xs))"
  by (induction xs) auto

lemma dot_star_at_end:
  "concat (map (\<lambda>(g, r). if at_end r then [g] else []) (dot_star s)) =
     (if at_end (dropWhile (\<lambda>c. c \<noteq> line_feed) s)
      then [takeWhile (\<lambda>c. c \<noteq> line_feed) s] else [])"
proof (induction s)
  case Nil
  then show ?case by (simp add: at_end_def)
next
  case (Cons c cs)
  show ?case
  proof (cases "c = line_feed")
    case True
    then show ?thesis by (simp add: at_end_def)
  next
    case False
    have not_end: "\<not> at_end (c # cs)"
      using False by (auto simp: at_end_def)
    have step: "dot_star (c # cs) = map (\<lambda>(g, r). (c # g, r)) (dot_star cs) @ [([], c # cs)]"
      using False by simp
    have "concat (map (\<lambda>(g, r). if at_end r then [g] else []) (dot_star (c # cs))) =
          map ((#) c) (concat (map (\<lambda>(g, r). if at_end r then [g] else []) (dot_star cs)))"
      unfolding step using not_end
      by (simp only: map_append concat_append at_end_cons_groups) simp
    then show ?thesis
      using False Cons.IH by simp
  qed
qed

lemma TAG_VERSION_REGEX_eq:
  "TAG_VERSION_REGEX s =
     (if at_end (dropWhile (\<lambda>c. c \<noteq> line_feed) s)
      then Some (Group (takeWhile (\<lambda>c. c \<noteq> line_feed) (strip_leading_v s)))
      else None)"
proof (cases s)
  case Nil
  then show ?thesis
    by (simp add: TAG_VERSION_REGEX_def optional_v_def first_match_def at_end_def
        strip_leading_v_def leading_v_def)
next
  case (Cons c cs)
  have v: "CHR ''v'' \<noteq> line_feed" by (simp add: line_feed_def)
  show ?thesis
  proof (cases "c = CHR ''v''")
    case True
    then show ?thesis
      using Cons v dot_star_at_end [of cs] dot_star_at_end [of "c # cs"]
      by (simp add: TAG_VERSION_REGEX_def optional_v_def first_match_def
          strip_leading_v_def leading_v_def)
  next
    case False
    then show ?thesis
      using Cons dot_star_at_end [of "c # cs"]
      by (simp add: TAG_VERSION_REGEX_def optional_v_def first_match_def
          strip_leading_v_def leading_v_def)
  qed
qed

lemma normalize_tag_default_eq:
  "normalize_tag t None =
     Inr (Some (if at_end (dropWhile (\<lambda>c. c \<noteq> line_feed) t)
                then takeWhile (\<lambda>c. c \<noteq> line_feed) (strip_leading_v t) else t))"
  by (simp add: normalize_tag_def TAG_VERSION_REGEX_eq)







text \<open>
  Claim C8. When the pattern in use, the given one or the default one, does not match the
  tag, \<^verbatim>\<open>_normalize_tag\<close> returns the tag unchanged; it does not raise.
\<close>

theorem normalize_tag_unmatched:
  assumes "(case regex of None \<Rightarrow> TAG_VERSION_REGEX | Some p \<Rightarrow> p) t = None"
  shows "normalize_tag t regex = Inr (Some t)"
  using assms by (simp add: normalize_tag_def)

theorem normalize_tag_unmatched_witness:
  "TAG_MATCHER ''v1.2.0'' = None \<and>
   normalize_tag ''v1.2.0'' (Some TAG_MATCHER) = Inr (Some ''v1.2.0'') \<and>
   TAG_VERSION_REGEX (''a'' @ [line_feed] @ ''b'') = None \<and>
   normalize_tag (''a'' @ [line_feed] @ ''b'') None = Inr (Some (''a'' @ [line_feed] @ ''b''))"
proof -
  have m: "TAG_MATCHER ''v1.2.0'' = None"
    by code_simp
  have d: "TAG_VERSION_REGEX (''a'' @ [line_feed] @ ''b'') = None"
    by (simp add: TAG_VERSION_REGEX_eq at_end_def line_feed_def)
  show ?thesis
    using normalize_tag_unmatched [of "Some TAG_MATCHER" "''v1.2.0''"]
      normalize_tag_unmatched [of None "''a'' @ [line_feed] @ ''b''"] m d
    by simp
qed

section \<open>Properties of \<^verbatim>\<open>_get_collection_tags\<close> and \<^verbatim>\<open>_get_tags\<close>\<close>

lemma find_tag_first:
  assumes "\<forall>u \<in> set pre. \<exists>n. normalize_tag u regex = Inr n \<and> n \<noteq> Some v"
    and "normalize_tag t regex = Inr (Some v)"
  shows "find_tag v regex (pre @ t # post) = Inr (Some t)"
  using assms by (induction pre) auto

lemma find_tag_none:
  assumes "\<forall>u \<in> set tags. \<exists>n. normalize_tag u regex = Inr n \<and> n \<noteq> Some v"
  shows "find_tag v regex tags = Inr None"
  using assms by (induction tags) auto

lemma get_collection_tags_fetch:
  assumes "meta_repository md = Some repo" and "repo \<noteq> []"
    and "compile_tag_version_regex env (meta_tag_version_regex md) = Inr regex"
    and "result (get_tags env repo) = Inr tags"
  shows "result (get_collection_tags env v md name) =
           (case find_tag v regex tags of
              Inl e \<Rightarrow> Inl e
            | Inr t \<Rightarrow> Inr ((initial_data v md)\<lparr>tag := t\<rparr>))"
  using assms by (simp add: get_collection_tags_def truthy_def str_opt_def Let_def)

lemma initial_data_tag: "(initial_data v md)\<lparr>tag := None\<rparr> = initial_data v md"
  by (simp add: initial_data_def)

text \<open>
  Claim C1, for normalisation that does not raise. Take a collection whose repository is a
  string that is not empty, whose pattern is absent, empty or compiles, and for which the
  fetch yields the sequence \<^verbatim>\<open>tags\<close>. If a tag of the sequence normalises to the version,
  and every tag before it normalises, without raising, to something else, then the record
  has that tag, whatever comes after it in the sequence: the later tags are not looked at.
  If every tag normalises, without raising, to something else than the version, the record
  has no tag.
\<close>

theorem get_collection_tags_first_match:
  assumes "meta_repository md = Some repo" and "repo \<noteq> []"
    and "compile_tag_version_regex env (meta_tag_version_regex md) = Inr regex"
    and "result (get_tags env repo) = Inr tags"
  shows "(tags = pre @ t # post \<and>
          (\<forall>u \<in> set pre. \<exists>n. normalize_tag u regex = Inr n \<and> n \<noteq> Some v) \<and>
          normalize_tag t regex = Inr (Some v) \<longrightarrow>
            result (get_collection_tags env v md name) =
              Inr ((initial_data v md)\<lparr>tag := Some t\<rparr>)) \<and>
         ((\<forall>u \<in> set tags. \<exists>n. normalize_tag u regex = Inr n \<and> n \<noteq> Some v) \<longrightarrow>
            result (get_collection_tags env v md name) = Inr (initial_data v md) \<and>
            tag (initial_data v md) = None)"
proof (intro conjI impI)
  assume h: "tags = pre @ t # post \<and>
          (\<forall>u \<in> set pre. \<exists>n. normalize_tag u regex = Inr n \<and> n \<noteq> Some v) \<and>
          normalize_tag t regex = Inr (Some v)"
  then have "find_tag v regex tags = Inr (Some t)"
    using find_tag_first [of pre regex v t post] by simp
  then show "result (get_collection_tags env v md name) =
              Inr ((initial_data v md)\<lparr>tag := Some t\<rparr>)"
    using get_collection_tags_fetch [OF assms, of v name] by simp
next
  assume "\<forall>u \<in> set tags. \<exists>n. normalize_tag u regex = Inr n \<and> n \<noteq> Some v"
  then have "find_tag v regex tags = Inr None"
    by (rule find_tag_none)
  then show "result (get_collection_tags env v md name) = Inr (initial_data v md)"
    using get_collection_tags_fetch [OF assms, of v name] by (simp add: initial_data_tag)
next
  show "tag (initial_data v md) = None"
    by (simp add: initial_data_def)
qed

lemma two_tags_fetched:
  "result (get_tags env_two_tags ''https://example/foo.git'') = Inr [''v1.0.0'', ''v1.2.0'']"
  by code_simp

lemma normalize_examples:
  "normalize_tag ''v1.0.0'' None = Inr (Some ''1.0.0'')"
  "normalize_tag ''v1.2.0'' None = Inr (Some ''1.2.0'')"
  by (simp_all add: normalize_tag_default_eq strip_leading_v_def leading_v_def at_end_def
      line_feed_def)

theorem get_collection_tags_first_match_witness:
  "meta_repository foo_meta = Some ''https://example/foo.git'' \<and>
   compile_tag_version_regex env_two_tags (meta_tag_version_regex foo_meta) = Inr None \<and>
   result (get_tags env_two_tags ''https://example/foo.git'') = Inr ([''v1.0.0''] @ ''v1.2.0'' # []) \<and>
   normalize_tag ''v1.0.0'' None = Inr (Some ''1.0.0'') \<and>
   normalize_tag ''v1.2.0'' None = Inr (Some ''1.2.0'') \<and>
   result (get_collection_tags env_two_tags ''1.2.0'' foo_meta ''foo'') =
     Inr \<lparr>version = ''1.2.0'', repository = Some ''https://example/foo.git'',
          tag = Some ''v1.2.0'', collection_directory = None\<rparr> \<and>
   result (get_collection_tags env_two_tags ''3.0.0'' foo_meta ''foo'') =
     Inr \<lparr>version = ''3.0.0'', repository = Some ''https://example/foo.git'',
          tag = None, collection_directory = None\<rparr>"
proof -
  have repo: "meta_repository foo_meta = Some ''https://example/foo.git''"
    by (simp add: foo_meta_def)
  have ne: "''https://example/foo.git'' \<noteq> []" by simp
  have comp: "compile_tag_version_regex env_two_tags (meta_tag_version_regex foo_meta) = Inr None"
    by (simp add: compile_tag_version_regex_def foo_meta_def)
  have fetched: "result (get_tags env_two_tags ''https://example/foo.git'') =
      Inr ([''v1.0.0''] @ ''v1.2.0'' # [])"
    using two_tags_fetched by simp
  show ?thesis
    using get_collection_tags_first_match [OF repo ne comp fetched,
        of "[''v1.0.0'']" "''v1.2.0''" "[]" "''1.2.0''" "''foo''"]
      get_collection_tags_first_match [OF repo ne comp fetched,
        of "[''v1.0.0'']" "''v1.2.0''" "[]" "''3.0.0''" "''foo''"]
      repo comp fetched normalize_examples
    by (simp add: initial_data_def foo_meta_def truthy_def)
qed

text \<open>
  A pattern that compiles and has no group: \<^verbatim>\<open>group(1)\<close> raises \<^verbatim>\<open>IndexError\<close> on the first
  tag the pattern matches, and the function returns no record.
\<close>

theorem get_collection_tags_no_group_counterexample:
  "compile_tag_version_regex env_v (meta_tag_version_regex foo_meta_v) = Inr (Some pattern_v) \<and>
   result (get_tags env_v ''https://example/foo.git'') = Inr [''v1.0.0'', ''v1.2.0''] \<and>
   result (get_collection_tags env_v ''1.2.0'' foo_meta_v ''foo'') = Inl IndexError"
proof -
  have "compile_tag_version_regex env_v (meta_tag_version_regex foo_meta_v) = Inr (Some pattern_v)"
    by (simp add: compile_tag_version_regex_def foo_meta_v_def env_v_def compile_v_def)
  moreover have "result (get_tags env_v ''https://example/foo.git'') = Inr [''v1.0.0'', ''v1.2.0'']"
    by code_simp
  moreover have "result (get_collection_tags env_v ''1.2.0'' foo_meta_v ''foo'') = Inl IndexError"
    by code_simp
  ultimately show ?thesis by simp
qed

text \<open>
  Claim C2. For a collection whose metadata has no repository, the function returns the
  record with the version it was given, no repository and no tag, it logs nothing at the
  levels above debug and it starts no process. And whenever the function returns a record
  without repository, that record has no tag and no process was started.
\<close>

theorem get_collection_tags_no_repository:
  "(meta_repository md = None \<longrightarrow>
      get_collection_tags env v md name =
        \<lparr>result = Inr \<lparr>version = v, repository = None, tag = None,
                        collection_directory =
                          (if truthy (meta_collection_directory md)
                           then meta_collection_directory md else None)\<rparr>,
         logged = [], spawned = []\<rparr>) \<and>
   (result (get_collection_tags env v md name) = Inr d \<and> repository d = None \<longrightarrow>
      tag d = None \<and> spawned (get_collection_tags env v md name) = [])"
proof (intro conjI impI)
  assume "meta_repository md = None"
  then show "get_collection_tags env v md name =
        \<lparr>result = Inr \<lparr>version = v, repository = None, tag = None,
                        collection_directory =
                          (if truthy (meta_collection_directory md)
                           then meta_collection_directory md else None)\<rparr>,
         logged = [], spawned = []\<rparr>"
    by (simp add: get_collection_tags_def truthy_def initial_data_def)
next
  assume h: "result (get_collection_tags env v md name) = Inr d \<and> repository d = None"
  have none: "meta_repository md = None"
  proof (rule ccontr)
    assume "meta_repository md \<noteq> None"
    then obtain repo where r: "meta_repository md = Some repo" by auto
    show False
    proof (cases "truthy (meta_repository md)")
      case False
      then show False
        using h r by (auto simp: get_collection_tags_def initial_data_def)
    next
      case True
      then show False
        using h r
        by (auto simp: get_collection_tags_def initial_data_def Let_def
            split: sum.splits)
    qed
  qed
  then have eq: "get_collection_tags env v md name =
      \<lparr>result = Inr (initial_data v md), logged = [], spawned = []\<rparr>"
    by (simp add: get_collection_tags_def truthy_def)
  show "tag d = None" using h eq by (auto simp: initial_data_def)
  show "spawned (get_collection_tags env v md name) = []" using eq by simp
qed

theorem get_collection_tags_no_repository_witness:
  "meta_repository bar_meta = None \<and>
   get_collection_tags env_two_tags ''2.0.0'' bar_meta ''bar'' =
     \<lparr>result = Inr bar_no_repository, logged = [], spawned = []\<rparr> \<and>
   repository bar_no_repository = None \<and> tag bar_no_repository = None"
  using get_collection_tags_no_repository [of bar_meta env_two_tags "''2.0.0''" "''bar''" bar_no_repository]
  by (simp add: bar_meta_def bar_no_repository_def truthy_def)

lemma format_no_args_plain:
  "CHR ''{'' \<notin> set s \<Longrightarrow> CHR ''}'' \<notin> set s \<Longrightarrow> format_no_args s = Some s"
  by (induction s rule: format_no_args.induct) auto

lemma emit_plain:
  "CHR ''{'' \<notin> set s \<Longrightarrow> CHR ''}'' \<notin> set s \<Longrightarrow> emit lvl s flds = [Log lvl s flds]"
  by (simp add: emit_def format_no_args_plain)

text \<open>
  Claim C6, as the code behaves. If the process \<^verbatim>\<open>git ls-remote --refs --tags <repository>\<close>
  ends with a return code other than zero, \<^verbatim>\<open>_get_tags\<close> yields no tag and raises nothing,
  and a collection with that repository, whose pattern is absent, empty or compiles, gets
  its record with no tag. The error \<^verbatim>\<open>Failed to fetch tags for <repository>\<close> is handed to the
  logger as a format specification: it is logged as it stands when the repository holds no
  brace, and it is not logged at all when formatting it raises.
\<close>

theorem get_tags_failed_process:
  assumes "create_subprocess_exec env (git_args repo) = Some proc"
    and "returncode proc \<noteq> 0"
  shows "result (get_tags env repo) = Inr [] \<and>
         spawned (get_tags env repo) = [[''git'', ''ls-remote'', ''--refs'', ''--tags'', repo]] \<and>
         logged (get_tags env repo) =
           (case format_no_args (''Failed to fetch tags for '' @ repo) of
              None \<Rightarrow> []
            | Some text \<Rightarrow>
                [Log Error text [(''mod'', ''antsibull.tagging''), (''func'', ''_get_tags'')]]) \<and>
         (CHR ''{'' \<notin> set repo \<and> CHR ''}'' \<notin> set repo \<longrightarrow>
            logged (get_tags env repo) =
              [Log Error (''Failed to fetch tags for '' @ repo)
                 [(''mod'', ''antsibull.tagging''), (''func'', ''_get_tags'')]]) \<and>
         (meta_repository md = Some repo \<and> repo \<noteq> [] \<and>
          compile_tag_version_regex env (meta_tag_version_regex md) = Inr regex \<longrightarrow>
            result (get_collection_tags env v md name) = Inr (initial_data v md) \<and>
            tag (initial_data v md) = None)"
proof -
  have fetch: "get_tags env repo =
           \<lparr>result = Inr [],
            logged = emit Error (''Failed to fetch tags for '' @ repo)
                       [(''mod'', ''antsibull.tagging''), (''func'', ''_get_tags'')],
            spawned = [[''git'', ''ls-remote'', ''--refs'', ''--tags'', repo]]\<rparr>"
    using assms by (simp add: get_tags_def git_args_def mlog_fields_def)
  have res: "result (get_tags env repo) = Inr []"
    using fetch by simp
  have logs: "logged (get_tags env repo) =
           (case format_no_args (''Failed to fetch tags for '' @ repo) of
              None \<Rightarrow> []
            | Some text \<Rightarrow>
                [Log Error text [(''mod'', ''antsibull.tagging''), (''func'', ''_get_tags'')]])"
    using fetch by (simp add: emit_def)
  have plain: "logged (get_tags env repo) =
              [Log Error (''Failed to fetch tags for '' @ repo)
                 [(''mod'', ''antsibull.tagging''), (''func'', ''_get_tags'')]]"
    if "CHR ''{'' \<notin> set repo \<and> CHR ''}'' \<notin> set repo"
  proof -
    have "CHR ''{'' \<notin> set (''Failed to fetch tags for '' @ repo)"
      and "CHR ''}'' \<notin> set (''Failed to fetch tags for '' @ repo)"
      using that by simp_all
    then show ?thesis
      using fetch emit_plain [of "''Failed to fetch tags for '' @ repo" Error] by simp
  qed
  have degrade: "result (get_collection_tags env v md name) = Inr (initial_data v md)"
    if "meta_repository md = Some repo" "repo \<noteq> []"
      "compile_tag_version_regex env (meta_tag_version_regex md) = Inr regex"
    using get_collection_tags_fetch [OF that res, of v name]
    by (simp add: initial_data_tag)
  have "tag (initial_data v md) = None"
    by (simp add: initial_data_def)
  with fetch logs plain degrade show ?thesis by simp
qed

theorem get_tags_failed_process_witness:
  "create_subprocess_exec env_failed (git_args braces_repository) =
     Some \<lparr>returncode = 128, stdout = Some []\<rparr> \<and>
   returncode \<lparr>returncode = 128, stdout = Some []\<rparr> \<noteq> 0 \<and>
   result (get_tags env_failed braces_repository) = Inr [] \<and>
   logged (get_tags env_failed braces_repository) = [] \<and>
   result (get_collection_tags env_failed ''1.2.0'' braces_meta ''foo'') =
     Inr \<lparr>version = ''1.2.0'', repository = Some ''/tmp/vrepo/{missing}.git'',
          tag = None, collection_directory = None\<rparr> \<and>
   CHR ''{'' \<notin> set ''https://example/foo.git'' \<and>
   CHR ''}'' \<notin> set ''https://example/foo.git'' \<and>
   logged (get_tags env_failed ''https://example/foo.git'') =
     [Log Error ''Failed to fetch tags for https://example/foo.git''
        [(''mod'', ''antsibull.tagging''), (''func'', ''_get_tags'')]] \<and>
   result (get_collection_tags env_failed ''1.2.0'' foo_meta ''foo'') = Inr foo_untagged"
proof -
  have run: "create_subprocess_exec env_failed (git_args r) =
     Some \<lparr>returncode = 128, stdout = Some []\<rparr>" for r
    by (simp add: env_failed_def run_failed_def)
  have rc: "returncode \<lparr>returncode = 128, stdout = Some []\<rparr> \<noteq> 0" by simp
  have comp: "compile_tag_version_regex env_failed (meta_tag_version_regex foo_meta) = Inr None"
    by (simp add: compile_tag_version_regex_def foo_meta_def)
  have comp_b: "compile_tag_version_regex env_failed (meta_tag_version_regex braces_meta) = Inr None"
    by (simp add: compile_tag_version_regex_def braces_meta_def)
  have fmt: "format_no_args (''Failed to fetch tags for '' @ braces_repository) = None"
    by (simp add: braces_repository_def)
  show ?thesis
    using get_tags_failed_process [OF run rc, of braces_repository braces_meta None "''1.2.0''" "''foo''"]
      get_tags_failed_process [OF run rc, of "''https://example/foo.git''" foo_meta None "''1.2.0''" "''foo''"]
      run comp comp_b fmt
    by (simp add: foo_meta_def braces_meta_def braces_repository_def initial_data_def
        foo_untagged_def truthy_def)
qed

text \<open>
  Claim C9, as the code behaves. When the pattern of a collection with a repository does
  not compile, the function starts no process and returns the record with no tag. It logs
  one error, whose fields hold the \<^verbatim>\<open>re.error\<close> and the name of the collection, and whose
  message is \<^verbatim>\<open>None is an invalid regex\<close> for every pattern: the message does not show the
  pattern.
\<close>

theorem get_collection_tags_invalid_regex:
  assumes "truthy (meta_repository md)"
    and "meta_tag_version_regex md = Some p" and "p \<noteq> []"
    and "re_compile env p = Inl err"
  shows "get_collection_tags env v md name =
           \<lparr>result = Inr (initial_data v md),
            logged = [Log Error ''None is an invalid regex''
                        [(''mod'', ''antsibull.tagging''), (''func'', ''_get_collection_tags''),
                         (''err'', err), (''collection'', name)]],
            spawned = []\<rparr> \<and>
         tag (initial_data v md) = None"
proof -
  have "emit Error ''None is an invalid regex'' flds =
        [Log Error ''None is an invalid regex'' flds]" for flds
    by (rule emit_plain) simp_all
  then show ?thesis
    using assms
    by (simp add: get_collection_tags_def compile_tag_version_regex_def str_opt_def
        mlog_fields_def initial_data_def)
qed

theorem get_collection_tags_invalid_regex_witness:
  "truthy (meta_repository foo_meta_invalid) \<and>
   meta_tag_version_regex foo_meta_invalid = Some ''('' \<and>
   re_compile env_two_tags ''('' = Inl ''missing ), unterminated subpattern at position 0'' \<and>
   get_collection_tags env_two_tags ''1.2.0'' foo_meta_invalid ''foo'' =
     \<lparr>result = Inr foo_untagged,
      logged = [Log Error ''None is an invalid regex''
                  [(''mod'', ''antsibull.tagging''), (''func'', ''_get_collection_tags''),
                   (''err'', ''missing ), unterminated subpattern at position 0''),
                   (''collection'', ''foo'')]],
      spawned = []\<rparr>"
proof -
  have r: "truthy (meta_repository foo_meta_invalid)"
    by (simp add: foo_meta_invalid_def truthy_def)
  have p: "meta_tag_version_regex foo_meta_invalid = Some ''(''"
    by (simp add: foo_meta_invalid_def)
  have ne: "''('' \<noteq> []" by simp
  have c: "re_compile env_two_tags ''('' = Inl ''missing ), unterminated subpattern at position 0''"
    by (simp add: env_two_tags_def compile_invalid_def)
  show ?thesis
    using get_collection_tags_invalid_regex [OF r p ne c, of "''1.2.0''" "''foo''"] r p c
    by (simp add: initial_data_def foo_meta_invalid_def foo_untagged_def truthy_def)
qed

end
